theory Spec2Isabelle
  imports Complex_Main "HOL-Library.AList"
begin

section \<open>The Mars rover controller (mars_rover/rovercontroller.py)\<close>

subsection \<open>Python values, failures and float arithmetic\<close>

text \<open>
  The arguments whose Python type the controller inspects (the distance of \<open>move\<close>, the
  vertices given to the constructor) are values of this datatype. The source is Python 2
  (it uses the \<open>print\<close> statement), which has two integer types: \<open>int\<close> holds the integers
  of a machine word and \<open>long\<close> all others. \<open>PInt n\<close> is the integer \<open>n\<close> as the interpreter
  builds it from a literal or from arithmetic, an \<open>int\<close> when \<open>n\<close> fits the machine word and
  a \<open>long\<close> otherwise; \<open>PLong n\<close> is a \<open>long\<close> of any value, such as \<open>0L\<close>. \<open>bool\<close> is a
  subclass of \<open>int\<close>.
\<close>

datatype 'f pyval =
    PNone
  | PBool bool
  | PInt int
  | PLong int
  | PFloat 'f
  | PStr string
  | PTuple "'f pyval list"
  | PList "'f pyval list"

text \<open>
  The source raises a plain \<open>Exception\<close> with a message; each message is one failure kind:
  \<^item> \<open>A Rover with id ... already exists\<close>: \<open>DuplicateId\<close>
  \<^item> \<open>Rover ... could not be found\<close>: \<open>RoverNotFound\<close>
  \<^item> \<open>Rover already occupies ...\<close>: \<open>PositionOccupied\<close>
  \<^item> \<open>Position ... is out of grid\<close>: \<open>OutOfBounds\<close>
  \<^item> \<open>Rover can only turn orthognally\<close>: \<open>NonOrthogonalTurn\<close>
  \<^item> \<open>Rover can only move integer units\<close>: \<open>InvalidDistance\<close>
  \<^item> \<open>vertix must be tuple of length 3.\<close> and \<open>vertices must be tuple of length 2.\<close>:
    \<open>InvalidBoundingBox\<close>

  Two more failures come from the interpreter and not from a \<open>raise\<close> of the source:
  \<^item> \<open>RuntimeError: maximum recursion depth exceeded\<close>: \<open>RecursionLimit\<close>
  \<^item> \<open>ValueError\<close> or \<open>OverflowError\<close> raised by \<open>math.sin\<close>, \<open>math.cos\<close> or \<open>int()\<close> on a
    float that is infinite or not a number: \<open>MathError\<close>
\<close>

datatype error =
    DuplicateId
  | RoverNotFound
  | PositionOccupied
  | OutOfBounds
  | NonOrthogonalTurn
  | InvalidDistance
  | InvalidBoundingBox
  | RecursionLimit
  | MathError

text \<open>
  Python floats are IEEE doubles and \<open>math.sin\<close>, \<open>math.cos\<close> come from the C library.
  Their rounding is not modelled: the float operations the controller uses are the fields
  of a record that every function of the model takes as its first argument, so a theorem
  stated for all \<open>ops\<close> holds whatever these operations compute. The type \<open>'f\<close> is
  the type of floats. \<open>math.sin\<close>, \<open>math.cos\<close> and \<open>int()\<close> raise on some floats (an infinite
  angle, a float that is infinite or not a number): they return \<open>None\<close> there.

  The record also carries the room the interpreter leaves for the recursion of \<open>move\<close>,
  which calls itself once per step: \<open>step_budget\<close> is the number of nested activations of
  \<open>move\<close> in which the call of \<open>check_position\<close> still completes below the recursion limit
  (\<open>sys.getrecursionlimit()\<close>, 1000 by default). In the activation after these the
  interpreter raises \<open>RuntimeError\<close> before the position is assigned.
\<close>

record 'f float_ops =
  fadd :: "'f \<Rightarrow> 'f \<Rightarrow> 'f"
  fmul :: "'f \<Rightarrow> 'f \<Rightarrow> 'f"
  fdiv :: "'f \<Rightarrow> 'f \<Rightarrow> 'f"
  fmod :: "'f \<Rightarrow> 'f \<Rightarrow> 'f"
  fsin :: "'f \<Rightarrow> 'f option"
  fcos :: "'f \<Rightarrow> 'f option"
  ftrunc :: "'f \<Rightarrow> int option"
  feq :: "'f \<Rightarrow> 'f \<Rightarrow> bool"
  fpi :: "'f"
  fof_int :: "int \<Rightarrow> 'f"
  step_budget :: nat

text \<open>
  Exact real arithmetic, used for the concrete examples: \<open>%\<close> takes the sign of the
  divisor (\<open>x - y * floor (x / y)\<close>), \<open>int()\<close> truncates toward zero, and no operation
  raises since every real is finite. The step budget is 990, about what a call of \<open>move\<close>
  from a script finds under the default recursion limit.
\<close>

definition ideal_fmod :: "real \<Rightarrow> real \<Rightarrow> real" where
  "ideal_fmod x y = x - y * of_int \<lfloor>x / y\<rfloor>"

definition ideal_trunc :: "real \<Rightarrow> int" where
  "ideal_trunc x = (if x < 0 then \<lceil>x\<rceil> else \<lfloor>x\<rfloor>)"

definition ideal_ops :: "real float_ops" where
  "ideal_ops = \<lparr>fadd = (+), fmul = (*), fdiv = (/), fmod = ideal_fmod,
     fsin = (\<lambda>x. Some (sin x)), fcos = (\<lambda>x. Some (cos x)),
     ftrunc = (\<lambda>x. Some (ideal_trunc x)), feq = (=), fpi = pi,
     fof_int = of_int, step_budget = 990\<rparr>"

subsection \<open>Data model\<close>

type_synonym position = "int \<times> int \<times> int"

type_synonym 'f heading = "'f \<times> 'f"

text \<open>
  Modelled from the spec: the module \<open>rover\<close> that defines the class \<open>Rover\<close> is not among
  the sources. The controller only constructs \<open>rover.Rover(position, heading)\<close> and reads
  and assigns the attributes \<open>position\<close> and \<open>heading\<close>; the spec gives the rover as the
  passive record of a position and a heading (azimuth, zenith).
\<close>

record 'f rover =
  position :: position
  heading :: "'f heading"

text \<open>
  The controller: the two vertices of the grid and the dictionary \<open>self.rovers\<close>, kept as
  an association list. \<open>self.rovers[k] = v\<close> is \<open>AList.update k v\<close>, a lookup is
  \<open>map_of\<close>, \<open>self.rovers.keys()\<close> is \<open>map fst\<close> and \<open>self.rovers.values()\<close> is
  \<open>map snd\<close>.
\<close>

record ('id, 'f) controller =
  vertices :: "position \<times> position"
  rovers :: "('id \<times> 'f rover) list"

text \<open>
  A call returns the exception it raised, if any, and the controller as the call left it:
  the source mutates the controller in place, so what was assigned before a \<open>raise\<close> stays.
\<close>

type_synonym ('id, 'f) outcome = "error option \<times> ('id, 'f) controller"

subsection \<open>Construction\<close>

text \<open>\<open>isinstance(v, tuple)\<close> together with \<open>len(v)\<close>: the length of a tuple, nothing otherwise.\<close>

fun tuple_len :: "'f pyval \<Rightarrow> nat option" where
  "tuple_len (PTuple xs) = Some (length xs)"
| "tuple_len _ = None"

text \<open>\<open>v[i]\<close>, used only on a tuple and below its length.\<close>

fun tuple_item :: "'f pyval \<Rightarrow> nat \<Rightarrow> 'f pyval" where
  "tuple_item (PTuple xs) i = xs ! i"
| "tuple_item v i = v"

text \<open>\<open>_set_vertices\<close>: the value stored in \<open>self._vertices\<close>, or the failure.\<close>

definition set_vertices :: "'f pyval \<Rightarrow> error + 'f pyval" where
  "set_vertices v =
     (if tuple_len v = Some 2 then
        (if tuple_len (tuple_item v 0) = Some 3 \<and> tuple_len (tuple_item v 1) = Some 3
         then Inr v
         else Inl InvalidBoundingBox)
      else Inl InvalidBoundingBox)"

text \<open>
  \<open>__init__\<close>: \<open>self.rovers = {}\<close>, then \<open>self.vertices = vertices\<close> through the setter.
  The result is the pair of the stored attributes \<open>(self._vertices, self.rovers)\<close>.
\<close>

definition controller_init :: "'f pyval \<Rightarrow> error + ('f pyval \<times> ('id \<times> 'f rover) list)" where
  "controller_init v =
     (case set_vertices v of
        Inl e \<Rightarrow> Inl e
      | Inr v' \<Rightarrow> Inr (v', []))"

text \<open>The Python value of a box of integer positions, as in \<open>((0, 0, 0), (5, 5, 0))\<close>.\<close>

definition position_val :: "position \<Rightarrow> 'f pyval" where
  "position_val p = (case p of (x, y, z) \<Rightarrow> PTuple [PInt x, PInt y, PInt z])"

definition box_val :: "position \<times> position \<Rightarrow> 'f pyval" where
  "box_val b = PTuple [position_val (fst b), position_val (snd b)]"

text \<open>
  The spec's wording of a well-formed box: structurally exactly two 3-component integer
  triples.
\<close>

fun is_int :: "'f pyval \<Rightarrow> bool" where
  "is_int (PInt n) = True"
| "is_int _ = False"

fun is_int_triple :: "'f pyval \<Rightarrow> bool" where
  "is_int_triple (PTuple [a, b, c]) = (is_int a \<and> is_int b \<and> is_int c)"
| "is_int_triple _ = False"

fun is_int_box :: "'f pyval \<Rightarrow> bool" where
  "is_int_box (PTuple [p, q]) = (is_int_triple p \<and> is_int_triple q)"
| "is_int_box _ = False"

text \<open>
  The controller built from a box of integer positions: the operations below work on this
  typed state.
\<close>

definition RoverController :: "position \<times> position \<Rightarrow> ('id, 'f) controller" where
  "RoverController b = \<lparr>vertices = b, rovers = []\<rparr>"

subsection \<open>Legality checks\<close>

definition is_empty :: "('id, 'f) controller \<Rightarrow> position \<Rightarrow> bool" where
  "is_empty c pos = (if pos \<in> set (map (\<lambda>r. position r) (map snd (rovers c))) then False else True)"

definition in_grid :: "('id, 'f) controller \<Rightarrow> position \<Rightarrow> bool" where
  "in_grid c pos =
     (case pos of (x, y, z) \<Rightarrow>
      case vertices c of ((v00, v01, v02), (v10, v11, v12)) \<Rightarrow>
        (if ((v00 \<le> x \<and> x \<le> v10) \<or> (v10 \<le> x \<and> x \<le> v00)) \<and>
            ((v01 \<le> y \<and> y \<le> v11) \<or> (v11 \<le> y \<and> y \<le> v01)) \<and>
            ((v02 \<le> z \<and> z \<le> v12) \<or> (v12 \<le> z \<and> z \<le> v02))
         then True else False))"

definition check_position :: "('id, 'f) controller \<Rightarrow> position \<Rightarrow> error option" where
  "check_position c pos =
     (if \<not> is_empty c pos then Some PositionOccupied
      else if \<not> in_grid c pos then Some OutOfBounds
      else None)"

subsection \<open>Operations\<close>

definition add_rover ::
  "('id, 'f) controller \<Rightarrow> 'id \<Rightarrow> position \<Rightarrow> 'f heading \<Rightarrow> ('id, 'f) outcome" where
  "add_rover c rover_id pos h =
     (case check_position c pos of
        Some e \<Rightarrow> (Some e, c)
      | None \<Rightarrow>
          if rover_id \<notin> set (map fst (rovers c))
          then (None, c\<lparr>rovers := AList.update rover_id \<lparr>position = pos, heading = h\<rparr> (rovers c)\<rparr>)
          else (Some DuplicateId, c))"

definition get_rover :: "('id, 'f) controller \<Rightarrow> 'id \<Rightarrow> error + 'f rover" where
  "get_rover c rover_id =
     (case map_of (rovers c) rover_id of
        None \<Rightarrow> Inl RoverNotFound
      | Some r \<Rightarrow> Inr r)"

text \<open>
  \<open>sys.maxint\<close> of a 64-bit build: the integers of type \<open>int\<close> are those from
  \<open>- maxint - 1\<close> to \<open>maxint\<close>.
\<close>

definition maxint :: int where
  "maxint = 2 ^ 63 - 1"

text \<open>
  \<open>isinstance(distance, int)\<close>: the integer a value is, if its type is \<open>int\<close> or \<open>bool\<close>. A
  \<open>long\<close> is not an instance of \<open>int\<close>.
\<close>

fun isinstance_int :: "'f pyval \<Rightarrow> int option" where
  "isinstance_int (PInt n) = (if - maxint - 1 \<le> n \<and> n \<le> maxint then Some n else None)"
| "isinstance_int (PBool b) = Some (if b then 1 else 0)"
| "isinstance_int _ = None"

text \<open>
  The vector added by one step of \<open>move\<close>, from the heading (azimuth, zenith), computed in
  the order of lines 73 to 75; \<open>None\<close> when \<open>math.sin\<close>, \<open>math.cos\<close> or \<open>int()\<close> raises.
\<close>

definition direction :: "'f float_ops \<Rightarrow> 'f heading \<Rightarrow> position option" where
  "direction ops h =
     (case h of (azimuth, zenith) \<Rightarrow>
       (case fsin ops zenith of None \<Rightarrow> None | Some sz \<Rightarrow>
        case fcos ops azimuth of None \<Rightarrow> None | Some ca \<Rightarrow>
        case ftrunc ops (fmul ops sz ca) of None \<Rightarrow> None | Some dx \<Rightarrow>
        case fsin ops azimuth of None \<Rightarrow> None | Some sa \<Rightarrow>
        case ftrunc ops (fmul ops sz sa) of None \<Rightarrow> None | Some dy \<Rightarrow>
        case fcos ops zenith of None \<Rightarrow> None | Some cz \<Rightarrow>
        case ftrunc ops cz of None \<Rightarrow> None | Some dz \<Rightarrow>
          Some (dx, dy, dz)))"

text \<open>
  \<open>move\<close> calls itself with \<open>distance - 1\<close> after each committed step, one activation
  deeper, where the interpreter has one step less of its budget left. Within an
  activation the rover is looked up and the direction computed first; when the budget is
  used up the call of \<open>check_position\<close> raises \<open>RuntimeError\<close>, with the steps of the earlier
  activations committed.
\<close>

function move ::
  "'f float_ops \<Rightarrow> ('id, 'f) controller \<Rightarrow> 'id \<Rightarrow> 'f pyval \<Rightarrow> ('id, 'f) outcome" where
  "move ops c rover_id distance =
     (case isinstance_int distance of
        None \<Rightarrow> (Some InvalidDistance, c)
      | Some d \<Rightarrow>
          if d > 0 then
            (case get_rover c rover_id of
               Inl e \<Rightarrow> (Some e, c)
             | Inr r \<Rightarrow>
                 (case position r of (x, y, z) \<Rightarrow>
                  case direction ops (heading r) of
                    None \<Rightarrow> (Some MathError, c)
                  | Some (dx, dy, dz) \<Rightarrow>
                      let p = (x + dx, y + dy, z + dz) in
                      if step_budget ops = 0 then (Some RecursionLimit, c)
                      else
                        (case check_position c p of
                           Some e \<Rightarrow> (Some e, c)
                         | None \<Rightarrow>
                             move (ops\<lparr>step_budget := step_budget ops - 1\<rparr>)
                               (c\<lparr>rovers := AList.update rover_id (r\<lparr>position := p\<rparr>) (rovers c)\<rparr>)
                               rover_id (PInt (d - 1)))))
          else (None, c))"
  by pat_completeness auto
termination
  by (relation "measure (\<lambda>(ops, c, rover_id, distance).
        case isinstance_int distance of None \<Rightarrow> 0 | Some d \<Rightarrow> nat d)") auto

declare move.simps [simp del]

text \<open>\<open>a % (math.pi/2) == 0.0\<close>\<close>

definition half_pi_multiple :: "'f float_ops \<Rightarrow> 'f \<Rightarrow> bool" where
  "half_pi_multiple ops a =
     feq ops (fmod ops a (fdiv ops (fpi ops) (fof_int ops 2))) (fof_int ops 0)"

definition turn ::
  "'f float_ops \<Rightarrow> ('id, 'f) controller \<Rightarrow> 'id \<Rightarrow> 'f \<Rightarrow> 'f \<Rightarrow> ('id, 'f) outcome" where
  "turn ops c rover_id azimuth zenith =
     (if half_pi_multiple ops azimuth \<and> half_pi_multiple ops zenith then
        (case get_rover c rover_id of
           Inl e \<Rightarrow> (Some e, c)
         | Inr r \<Rightarrow>
             (case heading r of (az, z) \<Rightarrow>
               (None, c\<lparr>rovers := AList.update rover_id
                  (r\<lparr>heading := (fadd ops az azimuth, fadd ops z zenith)\<rparr>) (rovers c)\<rparr>)))
      else (Some NonOrthogonalTurn, c))"

subsection \<open>Sequences of operations\<close>

text \<open>
  A caller issues \<open>add_rover\<close>, \<open>turn\<close> and \<open>move\<close> against one controller, and goes on
  after a call that raised. \<open>states\<close> lists the controller before the first call and after
  each call.
\<close>

datatype ('id, 'f) command =
    AddRover 'id position "'f heading"
  | Turn 'id 'f 'f
  | Move 'id "'f pyval"

fun exec :: "'f float_ops \<Rightarrow> ('id, 'f) controller \<Rightarrow> ('id, 'f) command \<Rightarrow> ('id, 'f) outcome" where
  "exec ops c (AddRover rover_id pos h) = add_rover c rover_id pos h"
| "exec ops c (Turn rover_id azimuth zenith) = turn ops c rover_id azimuth zenith"
| "exec ops c (Move rover_id distance) = move ops c rover_id distance"

fun states ::
  "'f float_ops \<Rightarrow> ('id, 'f) controller \<Rightarrow> ('id, 'f) command list \<Rightarrow> ('id, 'f) controller list" where
  "states ops c [] = [c]"
| "states ops c (cmd # cmds) = c # states ops (snd (exec ops c cmd)) cmds"

subsection \<open>The invariants of the data model\<close>

definition positions :: "('id, 'f) controller \<Rightarrow> position list" where
  "positions c = map (\<lambda>r. position r) (map snd (rovers c))"

text \<open>
  All rover positions lie within the bounding box, no two rovers share a position, and no
  id occurs twice in the dictionary.
\<close>

definition controller_inv :: "('id, 'f) controller \<Rightarrow> bool" where
  "controller_inv c =
     (list_all (in_grid c) (positions c) \<and> distinct (positions c) \<and> distinct (map fst (rovers c)))"

subsection \<open>The spec's description of \<open>move\<close>\<close>

text \<open>
  The spec describes \<open>move\<close> with distance \<open>n > 0\<close> as \<open>n\<close> unit steps in sequence. One
  unit step reads the heading, computes the truncated direction vector, validates the
  candidate position as \<open>add_rover\<close> does and commits it; the next step is attempted only if
  this one succeeded. These two definitions follow the spec's words and know no recursion
  limit; \<open>move\<close> above follows the source.
\<close>

definition unit_step :: "'f float_ops \<Rightarrow> ('id, 'f) controller \<Rightarrow> 'id \<Rightarrow> ('id, 'f) outcome" where
  "unit_step ops c rover_id =
     (case get_rover c rover_id of
        Inl e \<Rightarrow> (Some e, c)
      | Inr r \<Rightarrow>
          (case position r of (x, y, z) \<Rightarrow>
           case direction ops (heading r) of
             None \<Rightarrow> (Some MathError, c)
           | Some (dx, dy, dz) \<Rightarrow>
               (case check_position c (x + dx, y + dy, z + dz) of
                  Some e \<Rightarrow> (Some e, c)
                | None \<Rightarrow>
                    (None, c\<lparr>rovers := AList.update rover_id
                       (r\<lparr>position := (x + dx, y + dy, z + dz)\<rparr>) (rovers c)\<rparr>))))"

fun unit_steps :: "'f float_ops \<Rightarrow> 'id \<Rightarrow> nat \<Rightarrow> ('id, 'f) controller \<Rightarrow> ('id, 'f) outcome" where
  "unit_steps ops rover_id 0 c = (None, c)"
| "unit_steps ops rover_id (Suc n) c =
     (case unit_step ops c rover_id of
        (Some e, c') \<Rightarrow> (Some e, c')
      | (None, c') \<Rightarrow> unit_steps ops rover_id n c')"

subsection \<open>Example controllers\<close>

text \<open>
  The grid and the first rover of the source's demonstration, and the same rover with a
  heading of 45 degrees on both angles.
\<close>

definition demo_box :: "position \<times> position" where
  "demo_box = ((0, 0, 0), (5, 5, 0))"

definition demo_controller :: "(string, real) controller" where
  "demo_controller =
     \<lparr>vertices = demo_box,
      rovers = [(''rover1'', \<lparr>position = (1, 2, 0), heading = (pi / 2, pi / 2)\<rparr>)]\<rparr>"

definition diagonal_controller :: "(string, real) controller" where
  "diagonal_controller =
     \<lparr>vertices = demo_box,
      rovers = [(''rover1'', \<lparr>position = (1, 2, 0), heading = (pi / 4, pi / 4)\<rparr>)]\<rparr>"

text \<open>
  A corridor of 2001 cells along the third axis, with one rover at height \<open>z\<close> that heads
  up the corridor: the heading (0, 0) has the direction vector (0, 0, 1).
\<close>

definition corridor :: "int \<Rightarrow> (string, real) controller" where
  "corridor z =
     \<lparr>vertices = ((0, 0, 0), (0, 0, 2000)),
      rovers = [(''r'', \<lparr>position = (0, 0, z), heading = (0, 0)\<rparr>)]\<rparr>"

text \<open>
  A run with calls that fail: a duplicate id, a move into an occupied cell and a move that
  leaves the grid after one step.
\<close>

definition demo_commands :: "(string, real) command list" where
  "demo_commands =
     [AddRover ''rover1'' (1, 2, 0) (pi / 2, pi / 2),
      AddRover ''rover1'' (3, 3, 0) (0, 0),
      AddRover ''rover2'' (1, 3, 0) (0, pi / 2),
      Move ''rover1'' (PInt 1),
      Turn ''rover1'' (pi / 2) 0,
      Move ''rover1'' (PInt 3)]"

section \<open>Auxiliary facts\<close>

subsection \<open>The invariants are kept by every operation\<close>

lemma in_grid_rovers [simp]: "in_grid (c\<lparr>rovers := rs\<rparr>) = in_grid c"
  by (rule ext) (simp add: in_grid_def)

lemma update_positions_subset:
  "set (map (\<lambda>r. position r) (map snd (AList.update k v rs)))
     \<subseteq> insert (position v) (set (map (\<lambda>r. position r) (map snd rs)))"
  by (induction rs) auto

lemma update_positions_distinct:
  "position v \<notin> set (map (\<lambda>r. position r) (map snd rs)) \<Longrightarrow>
   distinct (map (\<lambda>r. position r) (map snd rs)) \<Longrightarrow>
   distinct (map (\<lambda>r. position r) (map snd (AList.update k v rs)))"
proof (induction rs)
  case Nil
  then show ?case by simp
next
  case (Cons a rs)
  obtain k' v' where a: "a = (k', v')" by (cases a)
  show ?case
  proof (cases "k' = k")
    case True
    with Cons.prems a show ?thesis by simp
  next
    case False
    have "position v' \<notin> set (map (\<lambda>r. position r) (map snd (AList.update k v rs)))"
      using update_positions_subset [of k v rs] Cons.prems a by auto
    with False Cons a show ?thesis by simp
  qed
qed

lemma update_positions_same:
  "map_of rs k = Some r \<Longrightarrow> position v = position r \<Longrightarrow>
   map (\<lambda>r. position r) (map snd (AList.update k v rs)) = map (\<lambda>r. position r) (map snd rs)"
  by (induction rs) (auto split: if_splits)

lemma update_keys_present:
  "map_of rs k = Some r \<Longrightarrow> map fst (AList.update k v rs) = map fst rs"
  by (induction rs) (auto split: if_splits)

lemma check_position_None:
  "check_position c pos = None \<longleftrightarrow> pos \<notin> set (positions c) \<and> in_grid c pos"
  by (simp add: check_position_def is_empty_def positions_def)

lemma add_rover_inv:
  assumes "controller_inv c"
  shows "controller_inv (snd (add_rover c rover_id pos h))"
proof (cases "check_position c pos")
  case (Some e)
  with assms show ?thesis by (simp add: add_rover_def)
next
  case None
  then have free: "pos \<notin> set (positions c)" and grid: "in_grid c pos"
    by (simp_all add: check_position_None)
  show ?thesis
  proof (cases "rover_id \<in> set (map fst (rovers c))")
    case True
    with None assms show ?thesis by (simp add: add_rover_def)
  next
    case False
    let ?r = "\<lparr>position = pos, heading = h\<rparr>"
    let ?c = "c\<lparr>rovers := AList.update rover_id ?r (rovers c)\<rparr>"
    have res: "snd (add_rover c rover_id pos h) = ?c"
      using None False by (simp add: add_rover_def)
    have sub: "set (positions ?c) \<subseteq> insert pos (set (positions c))"
      using update_positions_subset [of rover_id ?r "rovers c"] by (simp add: positions_def)
    have "list_all (in_grid ?c) (positions ?c)"
      using assms grid sub by (auto simp: controller_inv_def list_all_iff)
    moreover have "distinct (positions ?c)"
      using assms free update_positions_distinct [of ?r "rovers c" rover_id]
      by (simp add: controller_inv_def positions_def)
    moreover have "distinct (map fst (rovers ?c))"
      using assms by (simp add: controller_inv_def distinct_update)
    ultimately show ?thesis
      unfolding res controller_inv_def by simp
  qed
qed

lemma set_position_inv:
  assumes inv: "controller_inv c" and r: "map_of (rovers c) k = Some r"
    and chk: "check_position c p = None"
  shows "controller_inv (c\<lparr>rovers := AList.update k (r\<lparr>position := p\<rparr>) (rovers c)\<rparr>)"
proof -
  let ?r = "r\<lparr>position := p\<rparr>"
  let ?c = "c\<lparr>rovers := AList.update k ?r (rovers c)\<rparr>"
  from chk have free: "p \<notin> set (positions c)" and grid: "in_grid c p"
    by (simp_all add: check_position_None)
  have sub: "set (positions ?c) \<subseteq> insert p (set (positions c))"
    using update_positions_subset [of k ?r "rovers c"] by (simp add: positions_def)
  have "list_all (in_grid ?c) (positions ?c)"
    using inv grid sub by (auto simp: controller_inv_def list_all_iff)
  moreover have "distinct (positions ?c)"
    using inv free update_positions_distinct [of ?r "rovers c" k]
    by (simp add: controller_inv_def positions_def)
  moreover have "distinct (map fst (rovers ?c))"
    using inv by (simp add: controller_inv_def distinct_update)
  ultimately show ?thesis
    unfolding controller_inv_def by simp
qed

lemma move_inv:
  "controller_inv c \<Longrightarrow> controller_inv (snd (move ops c rover_id distance))"
proof (induction ops c rover_id distance rule: move.induct)
  case (1 ops c rover_id distance)
  show ?case
  proof (cases "isinstance_int distance")
    case None
    with "1.prems" show ?thesis by (simp add: move.simps)
  next
    case (Some d)
    note int = this
    show ?thesis
    proof (cases "d > 0")
      case False
      with int "1.prems" show ?thesis by (simp add: move.simps)
    next
      case True
      show ?thesis
      proof (cases "get_rover c rover_id")
        case (Inl e)
        with int True "1.prems" show ?thesis by (simp add: move.simps)
      next
        case (Inr r)
        then have r: "map_of (rovers c) rover_id = Some r"
          by (simp add: get_rover_def split: option.splits)
        obtain x y z where pos: "position r = (x, y, z)" by (cases "position r")
        show ?thesis
        proof (cases "direction ops (heading r)")
          case None
          with int True Inr pos "1.prems" show ?thesis
            by (simp add: move.simps [of ops c rover_id distance])
        next
          case (Some v)
          obtain dx dy dz where v: "v = (dx, dy, dz)" by (cases v)
          have dir: "direction ops (heading r) = Some (dx, dy, dz)"
            using Some v by simp
          let ?p = "(x + dx, y + dy, z + dz)"
          show ?thesis
          proof (cases "step_budget ops = 0")
            case True
            with int \<open>0 < d\<close> Inr pos dir "1.prems" show ?thesis
              by (simp add: move.simps [of ops c rover_id distance])
          next
            case False
            note budget = this
            show ?thesis
            proof (cases "check_position c ?p")
              case (Some e)
              with int True Inr pos dir budget "1.prems" show ?thesis
                by (simp add: move.simps [of ops c rover_id distance])
            next
              case None
              let ?c = "c\<lparr>rovers := AList.update rover_id (r\<lparr>position := ?p\<rparr>) (rovers c)\<rparr>"
              let ?ops = "ops\<lparr>step_budget := step_budget ops - 1\<rparr>"
              have eq: "move ops c rover_id distance = move ?ops ?c rover_id (PInt (d - 1))"
                using int True Inr pos dir budget None
                by (simp add: move.simps [of ops c rover_id distance])
              have "controller_inv ?c"
                using "1.prems" r None by (rule set_position_inv)
              then have "controller_inv (snd (move ?ops ?c rover_id (PInt (d - 1))))"
                using "1.IH" [OF int True Inr pos [symmetric] refl dir refl refl refl budget None]
                by simp
              with eq show ?thesis by simp
            qed
          qed
        qed
      qed
    qed
  qed
qed

lemma turn_inv:
  assumes "controller_inv c"
  shows "controller_inv (snd (turn ops c rover_id azimuth zenith))"
proof (cases "half_pi_multiple ops azimuth \<and> half_pi_multiple ops zenith")
  case False
  with assms show ?thesis by (auto simp add: turn_def)
next
  case True
  show ?thesis
  proof (cases "map_of (rovers c) rover_id")
    case None
    with True assms show ?thesis by (simp add: turn_def get_rover_def)
  next
    case (Some r)
    obtain az z where hd: "heading r = (az, z)" by (cases "heading r")
    let ?r = "r\<lparr>heading := (fadd ops az azimuth, fadd ops z zenith)\<rparr>"
    let ?c = "c\<lparr>rovers := AList.update rover_id ?r (rovers c)\<rparr>"
    have res: "snd (turn ops c rover_id azimuth zenith) = ?c"
      using True Some hd by (simp add: turn_def get_rover_def)
    have "positions ?c = positions c"
      using update_positions_same [OF Some, of ?r] by (simp add: positions_def)
    moreover have "map fst (rovers ?c) = map fst (rovers c)"
      using update_keys_present [OF Some] by simp
    ultimately show ?thesis
      using assms unfolding res controller_inv_def by simp
  qed
qed

subsection \<open>Exact arithmetic\<close>

lemma ideal_sel [simp]:
  "fadd ideal_ops = (+)" "fmul ideal_ops = (*)" "fdiv ideal_ops = (/)"
  "fmod ideal_ops = ideal_fmod" "fsin ideal_ops = (\<lambda>x. Some (sin x))"
  "fcos ideal_ops = (\<lambda>x. Some (cos x))" "ftrunc ideal_ops = (\<lambda>x. Some (ideal_trunc x))"
  "feq ideal_ops = (=)" "fpi ideal_ops = pi" "fof_int ideal_ops = of_int"
  "step_budget ideal_ops = 990"
  by (simp_all add: ideal_ops_def)

lemma ideal_half_pi_multiple:
  "half_pi_multiple ideal_ops a \<longleftrightarrow> (\<exists>k::int. a = of_int k * (pi / 2))"
proof
  assume "half_pi_multiple ideal_ops a"
  then have "a = of_int \<lfloor>a / (pi / 2)\<rfloor> * (pi / 2)"
    by (simp add: half_pi_multiple_def ideal_fmod_def mult.commute)
  then show "\<exists>k::int. a = of_int k * (pi / 2)" ..
next
  assume "\<exists>k::int. a = of_int k * (pi / 2)"
  then obtain k :: int where k: "a = of_int k * (pi / 2)" ..
  have "a / (pi / 2) = of_int k" using k by simp
  then have "\<lfloor>a / (pi / 2)\<rfloor> = k" by simp
  then show "half_pi_multiple ideal_ops a"
    using k by (simp add: half_pi_multiple_def ideal_fmod_def)
qed

lemma ideal_multiple_zero [simp]: "half_pi_multiple ideal_ops 0"
  using ideal_half_pi_multiple [of 0] by simp

lemma ideal_multiple_half_pi [simp]: "half_pi_multiple ideal_ops (pi / 2)"
  unfolding ideal_half_pi_multiple by (rule exI [of _ 1]) simp

lemma ideal_not_multiple_quarter_pi [simp]: "\<not> half_pi_multiple ideal_ops (pi / 4)"
proof -
  have "pi / 4 / (pi / 2) = 1 / 2" by simp
  then have "\<lfloor>pi / 4 / (pi / 2)\<rfloor> = 0" by simp
  then show ?thesis by (simp add: half_pi_multiple_def ideal_fmod_def)
qed

lemma ideal_trunc_simps [simp]:
  "ideal_trunc 0 = 0" "ideal_trunc 1 = 1" "ideal_trunc (- 1) = - 1"
  by (simp_all add: ideal_trunc_def ceiling_def)

lemma direction_budget [simp]: "direction (ops\<lparr>step_budget := b\<rparr>) = direction ops"
  by (rule ext) (simp add: direction_def split: prod.splits option.splits)

lemma ideal_direction:
  "direction ideal_ops (az, zen) =
     Some (ideal_trunc (sin zen * cos az), ideal_trunc (sin zen * sin az), ideal_trunc (cos zen))"
  by (simp add: direction_def)

lemma ideal_direction_north [simp]: "direction ideal_ops (pi / 2, pi / 2) = Some (0, 1, 0)"
  by (simp add: ideal_direction)

lemma ideal_direction_west [simp]: "direction ideal_ops (pi, pi / 2) = Some (- 1, 0, 0)"
  by (simp add: ideal_direction)

lemma ideal_direction_diagonal [simp]: "direction ideal_ops (pi / 4, pi / 4) = Some (0, 0, 0)"
proof -
  have s: "0 \<le> sqrt 2 / 2" "sqrt 2 / 2 < 1"
    using sqrt2_less_2 by simp_all
  have "ideal_trunc (sqrt 2 / 2) = 0"
    using s by (simp add: ideal_trunc_def floor_eq_iff)
  moreover have "sqrt 2 / 2 * (sqrt 2 / 2) = 1 / 2" by simp
  moreover have "ideal_trunc (1 / 2) = 0" by (simp add: ideal_trunc_def)
  ultimately show ?thesis
    by (simp add: ideal_direction sin_45 cos_45)
qed

lemma ideal_direction_up [simp]: "direction ideal_ops (0, 0) = Some (0, 0, 1)"
  by (simp add: ideal_direction)

subsection \<open>The example controllers are reachable\<close>

lemma demo_reachable:
  "add_rover (RoverController demo_box) ''rover1'' (1, 2, 0) (pi / 2, pi / 2) = (None, demo_controller)"
  by (simp add: add_rover_def RoverController_def demo_box_def demo_controller_def
      check_position_def is_empty_def in_grid_def)

lemma diagonal_reachable:
  "add_rover (RoverController demo_box) ''rover1'' (1, 2, 0) (pi / 4, pi / 4) = (None, diagonal_controller)"
  by (simp add: add_rover_def RoverController_def demo_box_def diagonal_controller_def
      check_position_def is_empty_def in_grid_def)

lemma demo_rover1 [simp]:
  "map_of (rovers demo_controller) ''rover1'' =
     Some \<lparr>position = (1, 2, 0), heading = (pi / 2, pi / 2)\<rparr>"
  by (simp add: demo_controller_def)

subsection \<open>A rover occupies its own cell\<close>

lemma present_not_empty:
  "map_of (rovers c) rover_id = Some r \<Longrightarrow> \<not> is_empty c (position r)"
proof -
  assume "map_of (rovers c) rover_id = Some r"
  then have "(rover_id, r) \<in> set (rovers c)" by (rule map_of_SomeD)
  then have "r \<in> snd ` set (rovers c)" by force
  then show ?thesis by (simp add: is_empty_def image_image) blast
qed

section \<open>The claims\<close>

subsection \<open>C1: \<open>add_rover\<close> with an id that is already present\<close>

text \<open>
  C1, as amended. \<open>add_rover\<close> checks the position before the id. With an id that is
  already present it always fails and leaves the controller (bounding box and rovers) as
  it was; the failure is \<open>PositionOccupied\<close> when the position is occupied, otherwise
  \<open>OutOfBounds\<close> when the position is outside the grid, and \<open>DuplicateId\<close> only when the
  position is free and inside the grid.
\<close>

theorem add_rover_duplicate:
  assumes "rover_id \<in> set (map fst (rovers c))"
  shows "add_rover c rover_id pos h =
           (Some (if \<not> is_empty c pos then PositionOccupied
                  else if \<not> in_grid c pos then OutOfBounds
                  else DuplicateId), c)"
  using assms by (simp add: add_rover_def check_position_def)

text \<open>
  The theorem at the demonstration controller: \<open>rover1\<close> is present, the cell (3, 3, 0) is
  free and inside the grid, and the call fails with \<open>DuplicateId\<close>.
\<close>

theorem add_rover_duplicate_witness:
  "''rover1'' \<in> set (map fst (rovers demo_controller)) \<and>
   add_rover demo_controller ''rover1'' (3, 3, 0) (0, 0) = (Some DuplicateId, demo_controller)"
proof -
  have m: "''rover1'' \<in> set (map fst (rovers demo_controller))"
    by (simp add: demo_controller_def)
  have "is_empty demo_controller (3, 3, 0)" "in_grid demo_controller (3, 3, 0)"
    by (simp_all add: demo_controller_def demo_box_def is_empty_def in_grid_def)
  with m add_rover_duplicate [OF m, of "(3, 3, 0)" "(0, 0)"] show ?thesis by simp
qed

text \<open>
  C1 as stated fails: adding \<open>rover1\<close> again at its own cell (1, 2, 0) raises
  \<open>PositionOccupied\<close>, and adding it at (9, 9, 9), outside the grid, raises \<open>OutOfBounds\<close>;
  neither is \<open>DuplicateId\<close>.
\<close>

theorem add_rover_duplicate_counterexample:
  "''rover1'' \<in> set (map fst (rovers demo_controller)) \<and>
   add_rover demo_controller ''rover1'' (1, 2, 0) (0, 0) = (Some PositionOccupied, demo_controller) \<and>
   add_rover demo_controller ''rover1'' (9, 9, 9) (0, 0) = (Some OutOfBounds, demo_controller)"
  by (simp add: add_rover_def demo_controller_def demo_box_def check_position_def
      is_empty_def in_grid_def)

subsection \<open>C2: \<open>turn\<close> with an id that is absent\<close>

text \<open>
  C2, as amended. \<open>turn\<close> tests the two deltas before it looks the rover up. With an id
  that is absent it always fails and leaves the controller as it was; the failure is
  \<open>RoverNotFound\<close> when both deltas pass the test \<open>delta % (math.pi/2) == 0.0\<close>, and
  \<open>NonOrthogonalTurn\<close> when one of them does not.
\<close>

theorem turn_absent:
  assumes "map_of (rovers c) rover_id = None"
  shows "turn ops c rover_id azimuth zenith =
           (Some (if half_pi_multiple ops azimuth \<and> half_pi_multiple ops zenith
                  then RoverNotFound else NonOrthogonalTurn), c)"
  using assms by (simp add: turn_def get_rover_def)

text \<open>
  The theorem at the demonstration controller, which has no \<open>rover2\<close>: a turn by
  (\<open>pi / 2\<close>, 0) fails with \<open>RoverNotFound\<close>.
\<close>

theorem turn_absent_witness:
  "map_of (rovers demo_controller) ''rover2'' = None \<and>
   turn ideal_ops demo_controller ''rover2'' (pi / 2) 0 = (Some RoverNotFound, demo_controller)"
proof -
  have a: "map_of (rovers demo_controller) ''rover2'' = None"
    by (simp add: demo_controller_def)
  from a turn_absent [OF a, of ideal_ops "pi / 2" 0] show ?thesis by simp
qed

text \<open>
  C2 as stated fails: a turn of the absent \<open>rover2\<close> by (\<open>pi / 4\<close>, 0), which is not a
  multiple of \<open>pi / 2\<close>, raises \<open>NonOrthogonalTurn\<close>, not \<open>RoverNotFound\<close>.
\<close>

theorem turn_absent_counterexample:
  "map_of (rovers demo_controller) ''rover2'' = None \<and>
   turn ideal_ops demo_controller ''rover2'' (pi / 4) 0 = (Some NonOrthogonalTurn, demo_controller)"
  by (simp add: turn_def demo_controller_def)

subsection \<open>C3: \<open>move\<close> along a heading whose direction vector is zero\<close>

text \<open>
  A zero step is refused, whatever the distance: the candidate position of the first step
  is the rover's own cell, which \<open>is_empty\<close> finds occupied by the rover itself.
\<close>

lemma move_zero_direction:
  assumes "map_of (rovers c) rover_id = Some r"
    and "direction ops (heading r) = Some (0, 0, 0)"
    and "0 < n" and "n \<le> maxint" and "0 < step_budget ops"
  shows "move ops c rover_id (PInt n) = (Some PositionOccupied, c)"
proof -
  obtain x y z where pos: "position r = (x, y, z)" by (cases "position r")
  have "\<not> is_empty c (x, y, z)"
    using present_not_empty [OF assms(1)] pos by simp
  then have "check_position c (x, y, z) = Some PositionOccupied"
    by (simp add: check_position_def)
  with assms pos show ?thesis
    by (simp add: move.simps [of ops c rover_id "PInt n"] get_rover_def)
qed

text \<open>
  C3 holds of what the docstring of \<open>move\<close> promises (a rover is kept from leaving the grid
  and from moving into another rover) but not of the code. At the controller whose only
  rover is \<open>rover1\<close> at (1, 2, 0) with the heading (\<open>pi / 4\<close>, \<open>pi / 4\<close>), the direction vector
  is (0, 0, 0) and \<open>move\<close> with distance 1 raises \<open>PositionOccupied\<close> instead of returning
  silently, although no other rover is in the grid.
\<close>

theorem move_zero_direction_self_collision:
  "map fst (rovers diagonal_controller) = [''rover1''] \<and>
   map_of (rovers diagonal_controller) ''rover1'' =
     Some \<lparr>position = (1, 2, 0), heading = (pi / 4, pi / 4)\<rparr> \<and>
   direction ideal_ops (pi / 4, pi / 4) = Some (0, 0, 0) \<and>
   move ideal_ops diagonal_controller ''rover1'' (PInt 1) = (Some PositionOccupied, diagonal_controller)"
  by (simp add: move.simps [of _ _ _ "PInt 1"] maxint_def get_rover_def diagonal_controller_def
      check_position_def is_empty_def)

subsection \<open>C4: what the constructor and the setter of the vertices accept\<close>

lemma tuple_len_Some: "tuple_len v = Some n \<longleftrightarrow> (\<exists>xs. v = PTuple xs \<and> length xs = n)"
  by (cases v) auto

lemma length_2_iff: "length xs = 2 \<longleftrightarrow> (\<exists>a b. xs = [a, b])"
  by (cases xs; cases "tl xs"; cases "tl (tl xs)") auto

lemma length_3_iff: "length xs = 3 \<longleftrightarrow> (\<exists>a b c. xs = [a, b, c])"
  by (auto simp: length_Suc_conv eval_nat_numeral)

lemma set_vertices_shape:
  "set_vertices v =
     (if \<exists>a b c d e f. v = PTuple [PTuple [a, b, c], PTuple [d, e, f]]
      then Inr v else Inl InvalidBoundingBox)"
proof (cases "tuple_len v = Some 2")
  case False
  then have "\<not> (\<exists>a b c d e f. v = PTuple [PTuple [a, b, c], PTuple [d, e, f]])"
    by auto
  with False show ?thesis by (simp add: set_vertices_def)
next
  case True
  then obtain p q where v: "v = PTuple [p, q]"
    by (auto simp: tuple_len_Some length_2_iff)
  have "(tuple_len p = Some 3 \<and> tuple_len q = Some 3) \<longleftrightarrow>
        (\<exists>a b c d e f. p = PTuple [a, b, c] \<and> q = PTuple [d, e, f])"
    by (simp add: tuple_len_Some length_3_iff) blast
  with v show ?thesis by (simp add: set_vertices_def)
qed

lemma is_int_box_shape:
  "is_int_box v \<Longrightarrow> \<exists>a b c d e f. v = PTuple [PTuple [a, b, c], PTuple [d, e, f]]"
proof (induction v rule: is_int_box.induct)
  case (1 p q)
  then have "is_int_triple p" "is_int_triple q" by simp_all
  moreover have "is_int_triple x \<Longrightarrow> \<exists>a b c. x = PTuple [a, b, c]" for x :: "'a pyval"
    by (induction x rule: is_int_triple.induct) simp_all
  ultimately show ?case by blast
qed simp_all

text \<open>
  C4, as amended. The setter of the vertices, and the constructor through it, fail with
  \<open>InvalidBoundingBox\<close> exactly when the argument is not a tuple of two tuples of three
  components each. The components themselves are not inspected: every box of two integer
  triples is accepted, and so is a pair of 3-tuples with components that are not integers.
\<close>

theorem bounding_box_shape_only:
  "set_vertices v =
     (if \<exists>a b c d e f. v = PTuple [PTuple [a, b, c], PTuple [d, e, f]]
      then Inr v else Inl InvalidBoundingBox) \<and>
   controller_init v =
     (if \<exists>a b c d e f. v = PTuple [PTuple [a, b, c], PTuple [d, e, f]]
      then Inr (v, []) else Inl InvalidBoundingBox) \<and>
   (is_int_box v \<longrightarrow> set_vertices v = Inr v \<and> controller_init v = Inr (v, []))"
  using is_int_box_shape [of v] by (auto simp add: controller_init_def set_vertices_shape)

text \<open>
  The theorem at the grid of the demonstration, \<open>((0, 0, 0), (5, 5, 0))\<close>: it is a box of
  two integer triples and is accepted.
\<close>

theorem bounding_box_shape_only_witness:
  "is_int_box (box_val demo_box :: real pyval) \<and>
   set_vertices (box_val demo_box :: real pyval) = Inr (box_val demo_box) \<and>
   controller_init (box_val demo_box :: real pyval) =
     Inr (box_val demo_box, [] :: (string \<times> real rover) list)"
proof -
  have a: "is_int_box (box_val demo_box :: real pyval)"
    by (simp add: box_val_def position_val_def demo_box_def)
  from a bounding_box_shape_only [of "box_val demo_box :: real pyval"] show ?thesis
    by blast
qed

text \<open>
  C4 as stated fails: the pair \<open>(('a', None, 1.5), (0, 0, 0))\<close> is not a box of integer
  triples, and both the setter and the constructor accept it.
\<close>

theorem bounding_box_non_integer_counterexample:
  "\<not> is_int_box (PTuple [PTuple [PStr ''a'', PNone, PFloat (3 / 2 :: real)], PTuple [PInt 0, PInt 0, PInt 0]]) \<and>
   set_vertices (PTuple [PTuple [PStr ''a'', PNone, PFloat (3 / 2 :: real)], PTuple [PInt 0, PInt 0, PInt 0]]) =
     Inr (PTuple [PTuple [PStr ''a'', PNone, PFloat (3 / 2)], PTuple [PInt 0, PInt 0, PInt 0]]) \<and>
   controller_init (PTuple [PTuple [PStr ''a'', PNone, PFloat (3 / 2 :: real)], PTuple [PInt 0, PInt 0, PInt 0]]) =
     Inr (PTuple [PTuple [PStr ''a'', PNone, PFloat (3 / 2)], PTuple [PInt 0, PInt 0, PInt 0]],
          [] :: (string \<times> real rover) list)"
  by (simp add: set_vertices_def controller_init_def)

subsection \<open>C5: the invariants hold after every operation\<close>

lemma init_inv: "controller_inv (RoverController b)"
  by (simp add: controller_inv_def RoverController_def positions_def)

lemma exec_inv: "controller_inv c \<Longrightarrow> controller_inv (snd (exec ops c cmd))"
  by (cases cmd) (simp_all add: add_rover_inv turn_inv move_inv)

lemma states_inv: "controller_inv c \<Longrightarrow> list_all controller_inv (states ops c cmds)"
  by (induction cmds arbitrary: c) (simp_all add: exec_inv)

text \<open>
  C5. Starting from a freshly built controller, after every call of a sequence of
  \<open>add_rover\<close>, \<open>turn\<close> and \<open>move\<close> calls, whether the call returned or raised, all rover
  positions lie within the bounding box, no two rovers share a position and the ids are
  unique. More generally a single call, failing or not, takes a controller that satisfies
  the invariants to one that satisfies them; this includes a \<open>move\<close> that fails after some
  of its steps were committed.
\<close>

theorem invariants_after_each_operation:
  "list_all controller_inv (states ops (RoverController b) cmds) \<and>
   (controller_inv c \<longrightarrow> controller_inv (snd (exec ops c cmd)))"
  by (simp add: states_inv init_inv exec_inv)

text \<open>
  The theorem at a run on the grid of the demonstration in which three calls fail, and at
  the demonstration controller for a \<open>move\<close> that fails after three committed steps.
\<close>

theorem invariants_after_each_operation_witness:
  "list_all controller_inv (states ideal_ops (RoverController demo_box) demo_commands) \<and>
   controller_inv demo_controller \<and>
   controller_inv (snd (exec ideal_ops demo_controller (Move ''rover1'' (PInt 4)))) \<and>
   map fst (map (exec ideal_ops demo_controller) [AddRover ''rover1'' (3, 3, 0) (0, 0), Move ''rover1'' (PInt 4)])
     = [Some DuplicateId, Some OutOfBounds] \<and>
   last (states ideal_ops (RoverController demo_box) demo_commands) =
     \<lparr>vertices = demo_box,
      rovers = [(''rover1'', \<lparr>position = (0, 2, 0), heading = (pi, pi / 2)\<rparr>),
                (''rover2'', \<lparr>position = (1, 3, 0), heading = (0, pi / 2)\<rparr>)]\<rparr>"
proof -
  note inst = invariants_after_each_operation [of ideal_ops demo_box demo_commands
      demo_controller "Move ''rover1'' (PInt 4)"]
  have i: "controller_inv demo_controller"
    by (simp add: controller_inv_def positions_def demo_controller_def demo_box_def in_grid_def)
  from inst i have a: "list_all controller_inv (states ideal_ops (RoverController demo_box) demo_commands)"
    and d: "controller_inv (snd (exec ideal_ops demo_controller (Move ''rover1'' (PInt 4))))"
    by blast+
  have b: "map fst (map (exec ideal_ops demo_controller) [AddRover ''rover1'' (3, 3, 0) (0, 0), Move ''rover1'' (PInt 4)])
     = [Some DuplicateId, Some OutOfBounds]"
    by (simp add: add_rover_def move.simps [of _ _ _ "PInt _"] maxint_def get_rover_def check_position_def
        is_empty_def in_grid_def demo_controller_def demo_box_def)
  have c: "last (states ideal_ops (RoverController demo_box) demo_commands) =
     \<lparr>vertices = demo_box,
      rovers = [(''rover1'', \<lparr>position = (0, 2, 0), heading = (pi, pi / 2)\<rparr>),
                (''rover2'', \<lparr>position = (1, 3, 0), heading = (0, pi / 2)\<rparr>)]\<rparr>"
    by (simp add: demo_commands_def RoverController_def add_rover_def turn_def
        move.simps [of _ _ _ "PInt _"] maxint_def get_rover_def check_position_def
        is_empty_def in_grid_def demo_box_def)
  from a b c d i show ?thesis by blast
qed

subsection \<open>C6: \<open>move\<close> as a sequence of unit steps\<close>

text \<open>
  Within the machine word and the step budget, \<open>move\<close> is the sequence of unit steps of the
  spec, and a failing step leaves the committed steps in place.
\<close>

lemma unit_step_budget [simp]: "unit_step (ops\<lparr>step_budget := b\<rparr>) c rover_id = unit_step ops c rover_id"
  by (simp add: unit_step_def split: sum.splits prod.splits option.splits)

lemma unit_steps_budget [simp]:
  "unit_steps (ops\<lparr>step_budget := b\<rparr>) rover_id k c = unit_steps ops rover_id k c"
  by (induction k arbitrary: c) (simp_all split: prod.splits option.splits)

lemma move_unit:
  "0 < n \<Longrightarrow> n \<le> maxint \<Longrightarrow> 0 < step_budget ops \<Longrightarrow>
   move ops c rover_id (PInt n) =
     (case unit_step ops c rover_id of
        (Some e, c') \<Rightarrow> (Some e, c')
      | (None, c') \<Rightarrow> move (ops\<lparr>step_budget := step_budget ops - 1\<rparr>) c' rover_id (PInt (n - 1)))"
  by (simp add: move.simps [of ops c rover_id "PInt n"] unit_step_def
      split: sum.splits prod.splits option.splits)

lemma move_within_budget:
  "int k \<le> maxint \<Longrightarrow> k \<le> step_budget ops \<Longrightarrow>
   move ops c rover_id (PInt (int k)) = unit_steps ops rover_id k c"
proof (induction k arbitrary: c ops)
  case 0
  show ?case by (simp add: move.simps [of ops c rover_id] maxint_def)
next
  case (Suc k)
  let ?ops = "ops\<lparr>step_budget := step_budget ops - 1\<rparr>"
  have "0 < int (Suc k)" by simp
  moreover have "0 < step_budget ops" using Suc.prems by simp
  ultimately have "move ops c rover_id (PInt (int (Suc k))) =
     (case unit_step ops c rover_id of
        (Some e, c') \<Rightarrow> (Some e, c')
      | (None, c') \<Rightarrow> move ?ops c' rover_id (PInt (int (Suc k) - 1)))"
    using Suc.prems(1) by (intro move_unit)
  also have "int (Suc k) - 1 = int k" by simp
  finally have eq: "move ops c rover_id (PInt (int (Suc k))) =
     (case unit_step ops c rover_id of
        (Some e, c') \<Rightarrow> (Some e, c')
      | (None, c') \<Rightarrow> move ?ops c' rover_id (PInt (int k)))" .
  have "move ?ops c' rover_id (PInt (int k)) = unit_steps ops rover_id k c'" for c'
    using Suc.IH [of ?ops c'] Suc.prems by simp
  with eq show ?case by (simp split: prod.splits option.splits)
qed

lemma unit_step_failure: "unit_step ops c rover_id = (Some e, c') \<Longrightarrow> c' = c"
  by (auto simp: unit_step_def split: sum.splits prod.splits option.splits)

lemma unit_steps_abort:
  "k < n \<Longrightarrow> unit_steps ops rover_id k c = (None, ck) \<Longrightarrow>
   fst (unit_step ops ck rover_id) = Some e \<Longrightarrow>
   unit_steps ops rover_id n c = (Some e, ck)"
proof (induction k arbitrary: c n)
  case 0
  then obtain m where n: "n = Suc m" by (cases n) auto
  from 0 have ck: "ck = c" by simp
  obtain c' where "unit_step ops c rover_id = (Some e, c')"
    using 0 ck by (cases "unit_step ops c rover_id") auto
  moreover from this have "c' = c" by (rule unit_step_failure)
  ultimately show ?case using n ck by simp
next
  case (Suc k)
  then obtain m where n: "n = Suc m" and km: "k < m" by (cases n) auto
  obtain c' where st: "unit_step ops c rover_id = (None, c')"
    and rest: "unit_steps ops rover_id k c' = (None, ck)"
    using Suc.prems(2) by (auto split: prod.splits option.splits)
  from Suc.IH [OF km rest Suc.prems(3)] st n show ?case by simp
qed

lemma move_aborts_without_rollback:
  assumes "0 < n" and "n \<le> maxint" and "nat n \<le> step_budget ops"
    and "k < nat n" and "unit_steps ops rover_id k c = (None, ck)"
    and "fst (unit_step ops ck rover_id) = Some e"
  shows "move ops c rover_id (PInt n) = (Some e, ck)"
proof -
  have "move ops c rover_id (PInt (int (nat n))) = unit_steps ops rover_id (nat n) c"
    using assms(1-3) by (intro move_within_budget) simp_all
  with assms(1) unit_steps_abort [OF assms(4-6)] show ?thesis by simp
qed

text \<open>
  Beyond the step budget the recursion of line 78 stops the rover: in the corridor nothing
  is in the rover's way, the spec's unit steps all succeed, and \<open>move\<close> commits as many steps
  as the budget has and then fails with \<open>RecursionLimit\<close>.
\<close>

lemma corridor_unit_step:
  "0 \<le> z \<Longrightarrow> z < 2000 \<Longrightarrow> unit_step ideal_ops (corridor z) ''r'' = (None, corridor (z + 1))"
  by (simp add: unit_step_def get_rover_def check_position_def is_empty_def in_grid_def
      corridor_def)

lemma corridor_unit_steps:
  "0 \<le> z \<Longrightarrow> z + int k \<le> 2000 \<Longrightarrow>
   unit_steps ideal_ops ''r'' k (corridor z) = (None, corridor (z + int k))"
proof (induction k arbitrary: z)
  case 0
  show ?case by simp
next
  case (Suc k)
  then have "unit_step ideal_ops (corridor z) ''r'' = (None, corridor (z + 1))"
    by (intro corridor_unit_step) simp_all
  moreover have "unit_steps ideal_ops ''r'' k (corridor (z + 1)) = (None, corridor (z + 1 + int k))"
    using Suc.prems by (intro Suc.IH) simp_all
  moreover have "z + 1 + int k = z + int (Suc k)" by simp
  ultimately show ?case by simp
qed

lemma corridor_move:
  "0 \<le> z \<Longrightarrow> 0 \<le> d \<Longrightarrow> d \<le> maxint \<Longrightarrow> z + int b \<le> 2000 \<Longrightarrow>
   move (ideal_ops\<lparr>step_budget := b\<rparr>) (corridor z) ''r'' (PInt d) =
     (if d \<le> int b then (None, corridor (z + d))
      else (Some RecursionLimit, corridor (z + int b)))"
proof (induction b arbitrary: z d)
  case 0
  then show ?case
    by (subst move.simps) (simp add: maxint_def get_rover_def corridor_def)
next
  case (Suc b)
  show ?case
  proof (cases "d = 0")
    case True
    then show ?thesis
      by (simp add: move.simps [of _ _ _ "PInt 0"] maxint_def)
  next
    case False
    with Suc.prems have d: "0 < d" by simp
    have "move (ideal_ops\<lparr>step_budget := Suc b\<rparr>) (corridor z) ''r'' (PInt d) =
          move (ideal_ops\<lparr>step_budget := b\<rparr>) (corridor (z + 1)) ''r'' (PInt (d - 1))"
      using d Suc.prems
      by (subst move.simps)
         (simp add: maxint_def get_rover_def check_position_def is_empty_def in_grid_def
            corridor_def)
    also have "\<dots> = (if d - 1 \<le> int b then (None, corridor (z + 1 + (d - 1)))
      else (Some RecursionLimit, corridor (z + 1 + int b)))"
      using Suc.prems d by (intro Suc.IH) simp_all
    finally show ?thesis by (simp add: algebra_simps)
  qed
qed

text \<open>
  C6 holds of what the docstring of \<open>move\<close> promises (the rover is moved the specified
  distance) but not of the code. In a free corridor of 2001 cells the 1200 unit steps of
  the spec all succeed and take the rover from height 0 to height 1200; \<open>move\<close> with
  distance 1200 calls itself once per step, uses up the 990 steps of the budget and then
  raises \<open>RecursionLimit\<close>, a failure that is neither \<open>PositionOccupied\<close> nor \<open>OutOfBounds\<close>,
  with the rover left at height 990.
\<close>

theorem move_recursion_limit:
  "unit_steps ideal_ops ''r'' 1200 (corridor 0) = (None, corridor 1200) \<and>
   move ideal_ops (corridor 0) ''r'' (PInt 1200) = (Some RecursionLimit, corridor 990)"
proof -
  have steps: "unit_steps ideal_ops ''r'' 1200 (corridor 0) = (None, corridor (0 + int 1200))"
    by (rule corridor_unit_steps) simp_all
  have b: "ideal_ops = ideal_ops\<lparr>step_budget := 990\<rparr>"
    by (simp add: ideal_ops_def)
  have "move ideal_ops (corridor 0) ''r'' (PInt 1200) =
        move (ideal_ops\<lparr>step_budget := 990\<rparr>) (corridor 0) ''r'' (PInt 1200)"
    by (rule arg_cong [where f = "\<lambda>ops. move ops (corridor 0) ''r'' (PInt 1200)", OF b])
  also have "\<dots> = (if (1200::int) \<le> int 990 then (None, corridor (0 + 1200))
      else (Some RecursionLimit, corridor (0 + int 990)))"
    by (rule corridor_move) (simp_all add: maxint_def)
  finally have "move ideal_ops (corridor 0) ''r'' (PInt 1200) = (Some RecursionLimit, corridor 990)"
    by simp
  with steps show ?thesis by simp
qed

subsection \<open>C7: the distance guard of \<open>move\<close>\<close>

text \<open>
  What the guard of line 67 does with each kind of distance: a value that is no integer
  at all is rejected with \<open>InvalidDistance\<close>, and so is every \<open>long\<close>; an \<open>int\<close> that is 0 or
  negative and \<open>False\<close> return without an error; \<open>True\<close> is the distance 1. The controller
  is unchanged in each of these cases but the last.
\<close>

lemma move_distance_guard:
  "move ops c rover_id PNone = (Some InvalidDistance, c) \<and>
   move ops c rover_id (PFloat x) = (Some InvalidDistance, c) \<and>
   move ops c rover_id (PStr s) = (Some InvalidDistance, c) \<and>
   move ops c rover_id (PTuple vs) = (Some InvalidDistance, c) \<and>
   move ops c rover_id (PList vs) = (Some InvalidDistance, c) \<and>
   move ops c rover_id (PLong n) = (Some InvalidDistance, c) \<and>
   (n < - maxint - 1 \<or> maxint < n \<longrightarrow> move ops c rover_id (PInt n) = (Some InvalidDistance, c)) \<and>
   (- maxint - 1 \<le> d \<and> d \<le> 0 \<longrightarrow> move ops c rover_id (PInt d) = (None, c)) \<and>
   move ops c rover_id (PBool False) = (None, c) \<and>
   move ops c rover_id (PBool True) = move ops c rover_id (PInt 1)"
  by (auto simp add: move.simps [of ops c rover_id] maxint_def)

text \<open>
  C7 holds of what the docstring of \<open>move\<close> promises (a rover moves an integer number of
  unit lengths) but not of the code. The integers \<open>-2**64\<close> and \<open>0L\<close> are 0 or negative, but
  they are of type \<open>long\<close>: \<open>isinstance(distance, int)\<close> is false and \<open>move\<close> raises
  \<open>InvalidDistance\<close> instead of returning without an error.
\<close>

theorem move_long_nonpositive_rejected:
  "move ideal_ops demo_controller ''rover1'' (PInt (- (2 ^ 64))) =
     (Some InvalidDistance, demo_controller) \<and>
   move ideal_ops demo_controller ''rover1'' (PLong 0) =
     (Some InvalidDistance, demo_controller)"
  by (simp add: move.simps [of _ _ _ "PInt _"] move.simps [of _ _ _ "PLong _"] maxint_def)

subsection \<open>C8: \<open>turn\<close> of an existing rover\<close>

lemma turn_present:
  assumes "map_of (rovers c) rover_id = Some r"
    and "half_pi_multiple ops azimuth" and "half_pi_multiple ops zenith"
  shows "turn ops c rover_id azimuth zenith =
           (None, c\<lparr>rovers := AList.update rover_id
              (r\<lparr>heading := (fadd ops (fst (heading r)) azimuth,
                               fadd ops (snd (heading r)) zenith)\<rparr>) (rovers c)\<rparr>)"
  using assms by (simp add: turn_def get_rover_def split_beta)

lemma turn_repeated:
  assumes "map_of (rovers c) rover_id = Some r"
    and "half_pi_multiple ops azimuth" and "half_pi_multiple ops zenith"
  shows "map_of (rovers (((\<lambda>c. snd (turn ops c rover_id azimuth zenith)) ^^ n) c)) rover_id =
           Some (r\<lparr>heading := (((\<lambda>a. fadd ops a azimuth) ^^ n) (fst (heading r)),
                               ((\<lambda>a. fadd ops a zenith) ^^ n) (snd (heading r)))\<rparr>)"
proof (induction n)
  case 0
  from assms(1) show ?case by simp
next
  case (Suc n)
  let ?c = "((\<lambda>c. snd (turn ops c rover_id azimuth zenith)) ^^ n) c"
  from turn_present [OF Suc.IH assms(2,3)] show ?case
    by (simp add: update_conv')
qed

text \<open>
  C8. For an existing rover, a turn in which one of the deltas does not pass the test
  \<open>delta % (math.pi/2) == 0.0\<close> fails with \<open>NonOrthogonalTurn\<close> and leaves the controller,
  and so the heading, as it was. When both deltas pass, the turn succeeds and the new
  heading is the component-wise float sum of the old heading and the deltas, with no
  normalisation: after \<open>n\<close> such turns the heading is the old one with the deltas added \<open>n\<close>
  times. The test is the source's own, for whatever the float operations compute; in exact
  arithmetic it holds exactly for the integer multiples of \<open>pi / 2\<close>
  (\<open>ideal_half_pi_multiple\<close>).
\<close>

theorem turn_exact_multiples:
  assumes "map_of (rovers c) rover_id = Some r"
  shows "(\<not> (half_pi_multiple ops azimuth \<and> half_pi_multiple ops zenith) \<longrightarrow>
            turn ops c rover_id azimuth zenith = (Some NonOrthogonalTurn, c)) \<and>
         (half_pi_multiple ops azimuth \<and> half_pi_multiple ops zenith \<longrightarrow>
            turn ops c rover_id azimuth zenith =
              (None, c\<lparr>rovers := AList.update rover_id
                 (r\<lparr>heading := (fadd ops (fst (heading r)) azimuth,
                                  fadd ops (snd (heading r)) zenith)\<rparr>) (rovers c)\<rparr>) \<and>
            (\<forall>n. map_of (rovers (((\<lambda>c. snd (turn ops c rover_id azimuth zenith)) ^^ n) c)) rover_id =
               Some (r\<lparr>heading := (((\<lambda>a. fadd ops a azimuth) ^^ n) (fst (heading r)),
                                   ((\<lambda>a. fadd ops a zenith) ^^ n) (snd (heading r)))\<rparr>)))"
  using turn_present [OF assms] turn_repeated [OF assms]
  by (auto simp add: turn_def)

text \<open>
  The theorem at the demonstration controller in exact arithmetic: a turn by \<open>pi / 4\<close>
  fails, and four turns by \<open>pi / 2\<close> take the azimuth \<open>pi / 2\<close> to \<open>pi / 2 + 2 * pi\<close>, which is
  not the azimuth the rover started with.
\<close>

theorem turn_exact_multiples_witness:
  "map_of (rovers demo_controller) ''rover1'' =
     Some \<lparr>position = (1, 2, 0), heading = (pi / 2, pi / 2)\<rparr> \<and>
   \<not> half_pi_multiple ideal_ops (pi / 4) \<and>
   turn ideal_ops demo_controller ''rover1'' (pi / 4) 0 = (Some NonOrthogonalTurn, demo_controller) \<and>
   half_pi_multiple ideal_ops (pi / 2) \<and> half_pi_multiple ideal_ops 0 \<and>
   map_of (rovers (((\<lambda>c. snd (turn ideal_ops c ''rover1'' (pi / 2) 0)) ^^ 4) demo_controller)) ''rover1'' =
     Some \<lparr>position = (1, 2, 0), heading = (pi / 2 + 2 * pi, pi / 2)\<rparr> \<and>
   pi / 2 + 2 * pi \<noteq> pi / 2"
proof -
  let ?r = "\<lparr>position = (1, 2, 0), heading = (pi / 2, pi / 2)\<rparr>"
  have a: "map_of (rovers demo_controller) ''rover1'' = Some ?r" by simp
  have four: "((\<lambda>a. a + pi / 2) ^^ 4) (pi / 2) = pi / 2 + 2 * pi"
    by (simp add: eval_nat_numeral)
  have zero: "((\<lambda>a. a + 0) ^^ 4) (pi / 2) = pi / 2"
    by (simp add: eval_nat_numeral)
  note inst1 = turn_exact_multiples [OF a, of ideal_ops "pi / 4" 0]
  note inst2 = turn_exact_multiples [OF a, of ideal_ops "pi / 2" 0]
  have b: "turn ideal_ops demo_controller ''rover1'' (pi / 4) 0 = (Some NonOrthogonalTurn, demo_controller)"
    using inst1 by simp
  have "map_of (rovers (((\<lambda>c. snd (turn ideal_ops c ''rover1'' (pi / 2) 0)) ^^ 4) demo_controller)) ''rover1'' =
     Some (?r\<lparr>heading := (((\<lambda>a. fadd ideal_ops a (pi / 2)) ^^ 4) (fst (heading ?r)),
                          ((\<lambda>a. fadd ideal_ops a 0) ^^ 4) (snd (heading ?r)))\<rparr>)"
    using inst2 by simp
  then have c: "map_of (rovers (((\<lambda>c. snd (turn ideal_ops c ''rover1'' (pi / 2) 0)) ^^ 4) demo_controller)) ''rover1'' =
     Some \<lparr>position = (1, 2, 0), heading = (pi / 2 + 2 * pi, pi / 2)\<rparr>"
    using four zero by simp
  from a b c show ?thesis by simp
qed

subsection \<open>C9: \<open>in_grid\<close> is the closed box between the vertices\<close>

lemma axis_interval:
  "((a \<le> x \<and> x \<le> b) \<or> (b \<le> x \<and> x \<le> a)) = (min a b \<le> x \<and> x \<le> max a b)"
  for a b x :: int
  by (simp add: min_def max_def) linarith

lemma in_grid_min_max:
  "in_grid c (x, y, z) =
     (min (fst (fst (vertices c))) (fst (snd (vertices c))) \<le> x \<and>
      x \<le> max (fst (fst (vertices c))) (fst (snd (vertices c))) \<and>
      min (fst (snd (fst (vertices c)))) (fst (snd (snd (vertices c)))) \<le> y \<and>
      y \<le> max (fst (snd (fst (vertices c)))) (fst (snd (snd (vertices c)))) \<and>
      min (snd (snd (fst (vertices c)))) (snd (snd (snd (vertices c)))) \<le> z \<and>
      z \<le> max (snd (snd (fst (vertices c)))) (snd (snd (snd (vertices c)))))"
  by (simp add: in_grid_def split_beta axis_interval)

text \<open>
  C9. \<open>in_grid\<close> holds of a position exactly when, on each axis, the coordinate lies in
  the closed interval between the smaller and the larger of the two vertices' coordinates.
  The result does not depend on the order of the vertices, and both vertices are in the
  grid.
\<close>

theorem in_grid_closed_box:
  "in_grid \<lparr>vertices = ((a0, a1, a2), (b0, b1, b2)), rovers = rs\<rparr> (x, y, z) =
     (min a0 b0 \<le> x \<and> x \<le> max a0 b0 \<and>
      min a1 b1 \<le> y \<and> y \<le> max a1 b1 \<and>
      min a2 b2 \<le> z \<and> z \<le> max a2 b2) \<and>
   in_grid \<lparr>vertices = (v, w), rovers = rs\<rparr> p = in_grid \<lparr>vertices = (w, v), rovers = rs\<rparr> p \<and>
   in_grid \<lparr>vertices = (v, w), rovers = rs\<rparr> v \<and>
   in_grid \<lparr>vertices = (v, w), rovers = rs\<rparr> w"
proof -
  obtain v0 v1 v2 w0 w1 w2 p0 p1 p2 where
    "v = (v0, v1, v2)" "w = (w0, w1, w2)" "p = (p0, p1, p2)"
    by (cases v, cases w, cases p) auto
  then show ?thesis
    by (simp add: in_grid_min_max min.commute max.commute)
qed

subsection \<open>C10: \<open>move\<close> tests the distance before it looks the rover up\<close>

text \<open>
  With a distance of type \<open>int\<close> that is 0 or negative, \<open>move\<close> returns without looking the
  rover up, for every id; for an id that is absent the distance 1 raises \<open>RoverNotFound\<close>.
\<close>

lemma move_nonpositive_skips_lookup:
  assumes "- maxint - 1 \<le> d" and "d \<le> 0"
  shows "move ops c rover_id (PInt d) = (None, c) \<and>
         (map_of (rovers c) rover_id = None \<longrightarrow>
            get_rover c rover_id = Inl RoverNotFound \<and>
            move ops c rover_id (PInt 1) = (Some RoverNotFound, c))"
  using assms by (simp add: move.simps [of ops c rover_id] get_rover_def maxint_def)

text \<open>
  C10 holds of the order of the two tests but not of every integer that is 0 or negative.
  The demonstration controller has no \<open>rover2\<close>; with the distances \<open>-1L\<close> and \<open>-2**64\<close>,
  which are of type \<open>long\<close>, \<open>move\<close> does not return successfully: it raises
  \<open>InvalidDistance\<close>, through the guard that also decides C7.
\<close>

theorem move_long_absent_rejected:
  "map_of (rovers demo_controller) ''rover2'' = None \<and>
   move ideal_ops demo_controller ''rover2'' (PLong (- 1)) =
     (Some InvalidDistance, demo_controller) \<and>
   move ideal_ops demo_controller ''rover2'' (PInt (- (2 ^ 64))) =
     (Some InvalidDistance, demo_controller)"
  by (simp add: move.simps [of _ _ _ "PInt _"] move.simps [of _ _ _ "PLong _"] maxint_def
      demo_controller_def)

end
